theory Spec2Isabelle
  imports Main "HOL-Library.AList"
begin

section \<open>JavaScript values, heap and outcomes\<close>

text \<open>
  The selector library of \<^verbatim>\<open>combineSelectors.ts\<close> compares values by reference
  (\<^verbatim>\<open>===\<close>), by shallow structure and by \<^verbatim>\<open>JSON.stringify\<close>. A value is
  therefore either a primitive or a reference into a heap of objects and arrays;
  functions are opaque references of their own. Numbers are the integers that a double
  holds exactly and prints in plain decimal (no negative zero), and \<open>NaN\<close>, the
  one number that is not \<^verbatim>\<open>===\<close> to itself. Strings are sequences of code units below 256.
  An object lists its own enumerable properties in the order \<^verbatim>\<open>Object.keys\<close>
  yields them, which for keys that are not array indices is insertion order; it is an
  ordinary object, whose prototype is \<^verbatim>\<open>Object.prototype\<close>. \<open>Builtin name\<close> is
  the built-in function that \<^verbatim>\<open>Object.prototype\<close> holds under that name.
  Getters, \<^verbatim>\<open>toJSON\<close> methods, symbols and BigInt are outside the model.
\<close>

datatype jsval =
    Undefined
  | Null
  | Bool bool
  | Num int
  | NaN
  | Str string
  | Fn nat
  | Builtin string
  | Ref nat

datatype obj =
    Object "(string \<times> jsval) list"
  | Array "jsval list"

text \<open>
  A \<^verbatim>\<open>throw\<close> is a value of the left summand. Two of them are not JavaScript
  errors. \<open>DanglingRef\<close> is what the model answers for a reference to no object of
  the heap, which a running program cannot build. \<open>Unmodelled\<close> is what it answers
  where it does not say what the code does: nothing that holds of the code follows
  from such an answer.
\<close>

datatype exn =
    TypeError string
  | Thrown jsval
  | DanglingRef nat
  | Unmodelled string

record world =
  heap :: "obj list"

text \<open>\<^verbatim>\<open>v1 === v2\<close>: identity on references, value equality on primitives, false on NaN.\<close>

definition strict_eq :: "jsval \<Rightarrow> jsval \<Rightarrow> bool" where
  "strict_eq v1 v2 = (v1 = v2 \<and> v1 \<noteq> NaN)"

section \<open>Number and string rendering\<close>

fun string_of_nat :: "nat \<Rightarrow> string" where
  "string_of_nat n =
     (if n < 10 then [char_of (48 + n)]
      else string_of_nat (n div 10) @ [char_of (48 + n mod 10)])"

declare string_of_nat.simps [simp del]

definition string_of_int :: "int \<Rightarrow> string" where
  "string_of_int i = (if i < 0 then CHR ''-'' # string_of_nat (nat (- i)) else string_of_nat (nat i))"

definition hex_digit :: "nat \<Rightarrow> char" where
  "hex_digit n = (if n < 10 then char_of (48 + n) else char_of (87 + n))"

text \<open>
  \<^verbatim>\<open>QuoteJSONString\<close> of ECMA-262: the quote and the backslash are escaped, the
  control characters get their short escape or \<^verbatim>\<open>\u00XX\<close>, every other code unit
  stands for itself.
\<close>

definition quote_char :: "char \<Rightarrow> string" where
  "quote_char c =
     (if c = CHR 0x22 then [CHR 0x5C, CHR 0x22]
      else if c = CHR 0x5C then [CHR 0x5C, CHR 0x5C]
      else if c = CHR 0x08 then [CHR 0x5C, CHR ''b'']
      else if c = CHR 0x09 then [CHR 0x5C, CHR ''t'']
      else if c = CHR 0x0A then [CHR 0x5C, CHR ''n'']
      else if c = CHR 0x0C then [CHR 0x5C, CHR ''f'']
      else if c = CHR 0x0D then [CHR 0x5C, CHR ''r'']
      else if (of_char c :: nat) < 32 then
        [CHR 0x5C, CHR ''u'', CHR ''0'', CHR ''0'',
         hex_digit ((of_char c :: nat) div 16), hex_digit ((of_char c :: nat) mod 16)]
      else [c])"

definition QuoteJSONString :: "string \<Rightarrow> string" where
  "QuoteJSONString s = CHR 0x22 # concat (map quote_char s) @ [CHR 0x22]"

fun join_comma :: "string list \<Rightarrow> string" where
  "join_comma [] = []"
| "join_comma [s] = s"
| "join_comma (s # t # r) = s @ CHR '','' # join_comma (t # r)"

section \<open>\<^verbatim>\<open>JSON.stringify\<close>\<close>

text \<open>The first throw of a sequence of evaluations is the throw of the whole.\<close>

fun sequence_outcomes :: "(exn + 'a) list \<Rightarrow> exn + 'a list" where
  "sequence_outcomes [] = Inr []"
| "sequence_outcomes (Inl e # r) = Inl e"
| "sequence_outcomes (Inr x # r) =
     (case sequence_outcomes r of Inl e \<Rightarrow> Inl e | Inr xs \<Rightarrow> Inr (x # xs))"

text \<open>A property whose value serializes to \<^verbatim>\<open>undefined\<close> is left out of an object.\<close>

fun object_members :: "(string \<times> string option) list \<Rightarrow> string list" where
  "object_members [] = []"
| "object_members ((k, None) # r) = object_members r"
| "object_members ((k, Some s) # r) = (QuoteJSONString k @ CHR '':'' # s) # object_members r"

text \<open>An element that serializes to \<^verbatim>\<open>undefined\<close> is written \<^verbatim>\<open>null\<close> in an array.\<close>

definition array_elements :: "string option list \<Rightarrow> string list" where
  "array_elements strs = map (\<lambda>s. case s of None \<Rightarrow> ''null'' | Some t \<Rightarrow> t) strs"

text \<open>
  \<^verbatim>\<open>SerializeJSONProperty\<close> with the stack of the objects being serialized: an
  object met again while it is on the stack is a cycle and throws a TypeError.
  The result \<open>None\<close> is \<^verbatim>\<open>undefined\<close>.
\<close>

lemma stack_measure:
  "a \<notin> set st \<Longrightarrow> a < length h \<Longrightarrow>
   card ({..<length h} - set (a # st)) < card ({..<length h} - set st)"
  by (rule psubset_card_mono) auto

function SerializeJSONProperty :: "obj list \<Rightarrow> nat list \<Rightarrow> jsval \<Rightarrow> exn + string option" where
  "SerializeJSONProperty h st Undefined = Inr None"
| "SerializeJSONProperty h st (Fn f) = Inr None"
| "SerializeJSONProperty h st (Builtin name) = Inr None"
| "SerializeJSONProperty h st Null = Inr (Some ''null'')"
| "SerializeJSONProperty h st (Bool b) = Inr (Some (if b then ''true'' else ''false''))"
| "SerializeJSONProperty h st (Num n) = Inr (Some (string_of_int n))"
| "SerializeJSONProperty h st NaN = Inr (Some ''null'')"
| "SerializeJSONProperty h st (Str s) = Inr (Some (QuoteJSONString s))"
| "SerializeJSONProperty h st (Ref a) =
     (if a \<in> set st then Inl (TypeError ''cyclic object value'')
      else if length h \<le> a then Inl (DanglingRef a)
      else (case h ! a of
              Object ps \<Rightarrow>
                (case sequence_outcomes (map (\<lambda>p. SerializeJSONProperty h (a # st) (snd p)) ps) of
                   Inl e \<Rightarrow> Inl e
                 | Inr strs \<Rightarrow>
                     Inr (Some (CHR ''{'' # join_comma (object_members (zip (map fst ps) strs)) @ ''}'')))
            | Array xs \<Rightarrow>
                (case sequence_outcomes (map (\<lambda>x. SerializeJSONProperty h (a # st) x) xs) of
                   Inl e \<Rightarrow> Inl e
                 | Inr strs \<Rightarrow>
                     Inr (Some (CHR ''['' # join_comma (array_elements strs) @ '']'')))))"
  by pat_completeness auto
termination
proof (relation "measure (\<lambda>(h, st, v). card ({..<length h} - set st))", goal_cases)
  case 1
  show ?case by simp
next
  case (2 h st a ps p)
  then show ?case using stack_measure [of a st h] by simp
next
  case (3 h st a xs x)
  then show ?case using stack_measure [of a st h] by simp
qed

definition JSON_stringify :: "obj list \<Rightarrow> jsval \<Rightarrow> exn + string option" where
  "JSON_stringify h v = SerializeJSONProperty h [] v"


section \<open>Equality strategies\<close>

text \<open>
  Modelled from the spec: \<^verbatim>\<open>shallowEqual\<close> is imported from the package
  \<^verbatim>\<open>react-redux\<close>, which is not part of the repository. The spec (4.1) says:
  true if both are the same primitive, or both are mappings or sequences with the same
  set of keys or indices and each corresponding value is reference-equal, one level deep.
  The definitions follow the shape of the library's function: its helper
  \<^verbatim>\<open>is\<close> first, then the key counts, then every own key of the first operand.
\<close>

definition objectIs :: "jsval \<Rightarrow> jsval \<Rightarrow> bool" where
  "objectIs x y = (if strict_eq x y then True else \<not> strict_eq x x \<and> \<not> strict_eq y y)"

text \<open>The own enumerable properties; those of an array are its indices, as strings.\<close>

definition own_properties :: "obj \<Rightarrow> (string \<times> jsval) list" where
  "own_properties ob =
     (case ob of Object ps \<Rightarrow> ps | Array xs \<Rightarrow> zip (map string_of_nat [0..<length xs]) xs)"

text \<open>\<^verbatim>\<open>typeof v === 'object' && v !== null\<close>, with the properties of the object.\<close>

definition as_object :: "obj list \<Rightarrow> jsval \<Rightarrow> (string \<times> jsval) list option" where
  "as_object h v =
     (case v of Ref a \<Rightarrow> (if a < length h then Some (own_properties (h ! a)) else None)
      | _ \<Rightarrow> None)"

definition shallowEqual :: "obj list \<Rightarrow> jsval \<Rightarrow> jsval \<Rightarrow> bool" where
  "shallowEqual h objA objB =
     (if objectIs objA objB then True
      else (case as_object h objA of
              None \<Rightarrow> False
            | Some pa \<Rightarrow>
                (case as_object h objB of
                   None \<Rightarrow> False
                 | Some pb \<Rightarrow>
                     (if length pa \<noteq> length pb then False
                      else list_all (\<lambda>(k, v). case map_of pb k of
                                                   None \<Rightarrow> False
                                                 | Some v' \<Rightarrow> objectIs v v') pa))))"

text \<open>
  The dependency arrays of a memoized selector never leave its closure, so they are
  kept as lists outside the heap; \<open>None\<close> is the variable \<^verbatim>\<open>dependencies\<close>
  before its first assignment (\<^verbatim>\<open>undefined\<close>). This is \<^verbatim>\<open>shallowEqual\<close>
  on a freshly built array and such a variable (lemma \<open>shallowEqual_arrays_heap\<close>).
\<close>

fun shallowEqual_arrays :: "jsval list \<Rightarrow> jsval list option \<Rightarrow> bool" where
  "shallowEqual_arrays xs None = False"
| "shallowEqual_arrays xs (Some ys) = (length xs = length ys \<and> list_all2 objectIs xs ys)"

text \<open>\<^verbatim>\<open>deepEqual\<close>: the \<^verbatim>\<open>catch\<close> turns a throw of either serialization into false.\<close>

definition deepEqual :: "obj list \<Rightarrow> jsval \<Rightarrow> jsval \<Rightarrow> bool" where
  "deepEqual h v1 v2 =
     (case JSON_stringify h v1 of
        Inl e \<Rightarrow> False
      | Inr s1 \<Rightarrow> (case JSON_stringify h v2 of Inl e \<Rightarrow> False | Inr s2 \<Rightarrow> s1 = s2))"



text \<open>An option of \<^verbatim>\<open>Options\<close> is a boolean or absent; absent is falsy.\<close>

record Options =
  cached :: "bool option"
  shallowEquality :: "bool option"
  deepEquality :: "bool option"

definition truthy :: "bool option \<Rightarrow> bool" where
  "truthy f = (f = Some True)"

definition checkEqual :: "obj list \<Rightarrow> jsval \<Rightarrow> jsval \<Rightarrow> Options \<Rightarrow> bool" where
  "checkEqual h v1 v2 options =
     (strict_eq v1 v2
      \<or> (truthy (shallowEquality options) \<and> shallowEqual h v1 v2)
      \<or> (truthy (deepEquality options) \<and> deepEqual h v1 v2))"


section \<open>Selectors\<close>

text \<open>
  A parameterized selector applied to props and then to a state, and a combiner applied
  to its arguments, are user code: they may allocate, keep state of their own and throw.
  They are transformers of a world that holds the heap and, in its extension, whatever
  else the user code keeps. They do not call back into the combinator they are given to.
\<close>

type_synonym 'w ParameterizedSelector = "jsval \<Rightarrow> jsval \<Rightarrow> 'w \<Rightarrow> (exn + jsval) \<times> 'w"

type_synonym 'w Combiner = "jsval list \<Rightarrow> 'w \<Rightarrow> (exn + jsval) \<times> 'w"

fun applyInputSelectors ::
  "'w ParameterizedSelector list \<Rightarrow> jsval \<Rightarrow> jsval \<Rightarrow> 'w \<Rightarrow> (exn + jsval list) \<times> 'w" where
  "applyInputSelectors [] p state w = (Inr [], w)"
| "applyInputSelectors (selector # rest) p state w =
     (case selector p state w of
        (Inl e, w1) \<Rightarrow> (Inl e, w1)
      | (Inr v, w1) \<Rightarrow>
          (case applyInputSelectors rest p state w1 of
             (Inl e, w2) \<Rightarrow> (Inl e, w2)
           | (Inr vs, w2) \<Rightarrow> (Inr (v # vs), w2)))"

text \<open>
  The names under which \<^verbatim>\<open>Object.prototype\<close> holds a function: every ordinary
  object inherits them. The last four are those of Annex B of ECMA-262, which browsers
  and Node.js have. \<^verbatim>\<open>constructor\<close> is the function \<^verbatim>\<open>Object\<close>.
\<close>

definition Object_prototype_methods :: "string list" where
  "Object_prototype_methods =
     [''constructor'', ''hasOwnProperty'', ''isPrototypeOf'', ''propertyIsEnumerable'',
      ''toLocaleString'', ''toString'', ''valueOf'',
      ''__defineGetter__'', ''__defineSetter__'', ''__lookupGetter__'', ''__lookupSetter__'']"

text \<open>
  \<^verbatim>\<open>props[key]\<close>: reading a property of \<^verbatim>\<open>undefined\<close> or \<^verbatim>\<open>null\<close> throws.
  On an object the own property is read first, then the prototype chain, which for an
  ordinary object is \<^verbatim>\<open>Object.prototype\<close> alone: a method name yields the
  inherited function, and a name found nowhere yields \<^verbatim>\<open>undefined\<close>. The one
  other property of \<^verbatim>\<open>Object.prototype\<close>, \<^verbatim>\<open>__proto__\<close>, is a getter. The props
  of a selector are typed \<^verbatim>\<open>Record<K, T>\<close>; what the code reads from an array, a
  function or a primitive is not modelled.
\<close>

definition get_property :: "obj list \<Rightarrow> jsval \<Rightarrow> string \<Rightarrow> exn + jsval" where
  "get_property h v key =
     (case v of
        Undefined \<Rightarrow> Inl (TypeError ''cannot read properties of undefined'')
      | Null \<Rightarrow> Inl (TypeError ''cannot read properties of null'')
      | Ref a \<Rightarrow>
          (if length h \<le> a then Inl (DanglingRef a)
           else (case h ! a of
                   Object ps \<Rightarrow>
                     (case map_of ps key of
                        Some x \<Rightarrow> Inr x
                      | None \<Rightarrow>
                          (if key \<in> set Object_prototype_methods then Inr (Builtin key)
                           else if key = ''__proto__'' then Inl (Unmodelled ''getter'')
                           else Inr Undefined))
                 | Array xs \<Rightarrow> Inl (Unmodelled ''property of an array'')))
      | _ \<Rightarrow> Inl (Unmodelled ''property of a primitive or a function''))"

definition selectArgument :: "string \<Rightarrow> ('z world_scheme) ParameterizedSelector" where
  "selectArgument key p state w = (get_property (heap w) p key, w)"

definition selectRoot :: "'w ParameterizedSelector" where
  "selectRoot p state w = (Inr state, w)"

section \<open>The combinator\<close>

text \<open>
  The function objects that a combinator hands out are kept in a store of their own,
  in the order of their creation; a state-selector is its index there, so that two
  state-selectors are the same function exactly when their indices are equal.
  A closure of the uncached path captures \<^verbatim>\<open>props\<close>; one of the cached path
  captures \<^verbatim>\<open>props\<close> and the variables \<^verbatim>\<open>dependencies\<close> and \<^verbatim>\<open>result\<close>.
  \<^verbatim>\<open>selectorCache\<close> is the \<^verbatim>\<open>Map\<close> of the cached path; its key \<open>None\<close> is the
  key \<^verbatim>\<open>undefined\<close>. The input selectors, the combiner and the options of a
  combinator are fixed when it is created: they are parameters of both of its
  operations, the call on props and the call of a state-selector on a state.
\<close>

record memo =
  props :: jsval
  dependencies :: "jsval list option"
  result :: jsval

datatype closure =
    PlainSelector jsval
  | MemoSelector memo

record cstate =
  selectorCache :: "(string option \<times> nat) list"
  closures :: "closure list"

definition new_cstate :: cstate where
  "new_cstate = \<lparr>selectorCache = [], closures = []\<rparr>"

definition is_cached :: "Options \<Rightarrow> bool" where
  "is_cached options =
     (truthy (cached options) \<or> truthy (shallowEquality options) \<or> truthy (deepEquality options))"

text \<open>
  \<^verbatim>\<open>combineSelectors(inputSelectors, combiner, options)(props)\<close>: the result is a
  state-selector or the throw of \<^verbatim>\<open>JSON.stringify(props)\<close>.
\<close>

definition combineSelectors ::
  "('z world_scheme) ParameterizedSelector list \<Rightarrow> ('z world_scheme) Combiner \<Rightarrow> Options \<Rightarrow>
   jsval \<Rightarrow> cstate \<Rightarrow> 'z world_scheme \<Rightarrow> (exn + nat) \<times> cstate" where
  "combineSelectors inputSelectors combiner options p cs w =
     (if \<not> is_cached options then
        (Inr (length (closures cs)), cs\<lparr>closures := closures cs @ [PlainSelector p]\<rparr>)
      else
        (case JSON_stringify (heap w) p of
           Inl e \<Rightarrow> (Inl e, cs)
         | Inr key \<Rightarrow>
             (case map_of (selectorCache cs) key of
                Some selector \<Rightarrow> (Inr selector, cs)
              | None \<Rightarrow>
                  (Inr (length (closures cs)),
                   cs\<lparr>closures := closures cs @
                         [MemoSelector \<lparr>props = p, dependencies = None, result = Undefined\<rparr>],
                      selectorCache := AList.update key (length (closures cs)) (selectorCache cs)\<rparr>))))"

text \<open>The state-selector of the uncached path (lines 100 to 104).\<close>

definition plain_selector ::
  "'w ParameterizedSelector list \<Rightarrow> 'w Combiner \<Rightarrow> jsval \<Rightarrow> jsval \<Rightarrow> 'w \<Rightarrow> (exn + jsval) \<times> 'w" where
  "plain_selector inputSelectors combiner p state w =
     (case applyInputSelectors inputSelectors p state w of
        (Inl e, w1) \<Rightarrow> (Inl e, w1)
      | (Inr deps, w1) \<Rightarrow> combiner deps w1)"

text \<open>
  The state-selector of the cached path (lines 130 to 150), on the variables of its
  closure. \<^verbatim>\<open>dependencies\<close> is assigned before the combiner runs.
\<close>

definition memo_selector ::
  "('z world_scheme) ParameterizedSelector list \<Rightarrow> ('z world_scheme) Combiner \<Rightarrow> Options \<Rightarrow>
   memo \<Rightarrow> jsval \<Rightarrow> 'z world_scheme \<Rightarrow> (exn + jsval) \<times> memo \<times> 'z world_scheme" where
  "memo_selector inputSelectors combiner options m state w =
     (case applyInputSelectors inputSelectors (props m) state w of
        (Inl e, w1) \<Rightarrow> (Inl e, m, w1)
      | (Inr newDependencies, w1) \<Rightarrow>
          (if shallowEqual_arrays newDependencies (dependencies m) then (Inr (result m), m, w1)
           else
             (case combiner newDependencies w1 of
                (Inl e, w2) \<Rightarrow> (Inl e, m\<lparr>dependencies := Some newDependencies\<rparr>, w2)
              | (Inr newResult, w2) \<Rightarrow>
                  (if checkEqual (heap w2) (result m) newResult options then
                     (Inr (result m), m\<lparr>dependencies := Some newDependencies\<rparr>, w2)
                   else
                     (Inr newResult,
                      m\<lparr>dependencies := Some newDependencies, result := newResult\<rparr>, w2)))))"

text \<open>Calling the state-selector \<open>sel\<close> on a state.\<close>

definition call_selector ::
  "('z world_scheme) ParameterizedSelector list \<Rightarrow> ('z world_scheme) Combiner \<Rightarrow> Options \<Rightarrow>
   nat \<Rightarrow> jsval \<Rightarrow> cstate \<Rightarrow> 'z world_scheme \<Rightarrow> (exn + jsval) \<times> cstate \<times> 'z world_scheme" where
  "call_selector inputSelectors combiner options sel state cs w =
     (if length (closures cs) \<le> sel then (Inl (DanglingRef sel), cs, w)
      else (case closures cs ! sel of
              PlainSelector p \<Rightarrow>
                (case plain_selector inputSelectors combiner p state w of
                   (r, w1) \<Rightarrow> (r, cs, w1))
            | MemoSelector m \<Rightarrow>
                (case memo_selector inputSelectors combiner options m state w of
                   (r, m1, w1) \<Rightarrow> (r, cs\<lparr>closures := (closures cs)[sel := MemoSelector m1]\<rparr>, w1))))"

text \<open>
  The composition that the header comment of the library and the spec (4.5) describe:
  \<^verbatim>\<open>props => state => combiner(s1(props)(state), ..., sn(props)(state))\<close>, the
  arguments evaluated from left to right.
\<close>

fun naive_arguments ::
  "'w ParameterizedSelector list \<Rightarrow> 'w Combiner \<Rightarrow> jsval list \<Rightarrow> jsval \<Rightarrow> jsval \<Rightarrow> 'w \<Rightarrow>
   (exn + jsval) \<times> 'w" where
  "naive_arguments [] combiner evaluated p state w = combiner evaluated w"
| "naive_arguments (selector # rest) combiner evaluated p state w =
     (case selector p state w of
        (Inl e, w1) \<Rightarrow> (Inl e, w1)
      | (Inr v, w1) \<Rightarrow> naive_arguments rest combiner (evaluated @ [v]) p state w1)"

definition naive_composition ::
  "'w ParameterizedSelector list \<Rightarrow> 'w Combiner \<Rightarrow> jsval \<Rightarrow> jsval \<Rightarrow> 'w \<Rightarrow> (exn + jsval) \<times> 'w" where
  "naive_composition inputSelectors combiner p state w =
     naive_arguments inputSelectors combiner [] p state w"


text \<open>
  The states that a combinator goes through: from one of them, by calls of the
  combinator on props and calls of its state-selectors on states, in any worlds.
\<close>

inductive evolves ::
  "('z world_scheme) ParameterizedSelector list \<Rightarrow> ('z world_scheme) Combiner \<Rightarrow> Options \<Rightarrow>
   cstate \<Rightarrow> cstate \<Rightarrow> bool"
  for inputSelectors combiner options where
  evolves_refl: "evolves inputSelectors combiner options cs cs"
| evolves_bind:
    "evolves inputSelectors combiner options cs cs1 \<Longrightarrow>
     combineSelectors inputSelectors combiner options p cs1 w = (r, cs2) \<Longrightarrow>
     evolves inputSelectors combiner options cs cs2"
| evolves_read:
    "evolves inputSelectors combiner options cs cs1 \<Longrightarrow>
     call_selector inputSelectors combiner options sel state cs1 w = (r, cs2, w1) \<Longrightarrow>
     evolves inputSelectors combiner options cs cs2"

text \<open>
  What holds of the cache in every state of a cached combinator: no state-selector is
  stored under two keys, and each stored one is in the store of closures.
\<close>

definition cache_ok :: "cstate \<Rightarrow> bool" where
  "cache_ok cs =
     (distinct (map snd (selectorCache cs))
      \<and> list_all (\<lambda>entry. snd entry < length (closures cs)) (selectorCache cs))"

text \<open>The values of the type \<^verbatim>\<open>Serializable\<close> of the library: the scalars.\<close>

fun is_Serializable :: "jsval \<Rightarrow> bool" where
  "is_Serializable (Fn f) = False"
| "is_Serializable (Builtin name) = False"
| "is_Serializable (Ref a) = False"
| "is_Serializable v = True"



section \<open>Example combiners, options and states\<close>

text \<open>\<^verbatim>\<open>(x) => x\<close>; a missing argument is \<^verbatim>\<open>undefined\<close>.\<close>

definition first_argument :: "'w Combiner" where
  "first_argument args w = (Inr (case args of [] \<Rightarrow> Undefined | x # rest \<Rightarrow> x), w)"

text \<open>\<^verbatim>\<open>() => { throw "boom" }\<close>\<close>

definition throwing_combiner :: "'w Combiner" where
  "throwing_combiner args w = (Inl (Thrown (Str ''boom'')), w)"

text \<open>A combiner that counts its own calls, \<^verbatim>\<open>() => calls++\<close>, in a world with the counter.\<close>

record counting_world = world +
  calls :: nat

definition counting_combiner :: "counting_world Combiner" where
  "counting_combiner args w = (Inr (Num (int (calls w))), w\<lparr>calls := calls w + 1\<rparr>)"

text \<open>\<^verbatim>\<open>{cached: true}\<close>, \<^verbatim>\<open>{}\<close> and \<^verbatim>\<open>{shallowEquality: true, deepEquality: true}\<close>.\<close>

definition cached_only :: Options where
  "cached_only = \<lparr>cached = Some True, shallowEquality = None, deepEquality = None\<rparr>"

definition no_options :: Options where
  "no_options = \<lparr>cached = None, shallowEquality = None, deepEquality = None\<rparr>"

definition shallow_and_deep :: Options where
  "shallow_and_deep = \<lparr>cached = None, shallowEquality = Some True, deepEquality = Some True\<rparr>"

text \<open>
  A selector of a cached combinator that has been read once on the state \<open>1\<close>, when
  the counting combiner returned \<open>0\<close>.
\<close>

definition warm_memo :: memo where
  "warm_memo = \<lparr>props = Ref 0, dependencies = Some [Num 1], result = Num 0\<rparr>"

definition warm_cstate :: cstate where
  "warm_cstate = \<lparr>selectorCache = [(Some ''{}'', 0)], closures = [MemoSelector warm_memo]\<rparr>"

definition warm_world :: counting_world where
  "warm_world = \<lparr>heap = [Object []], calls = 1\<rparr>"

text \<open>A selector of a cached combinator before its first read.\<close>

definition cold_memo :: memo where
  "cold_memo = \<lparr>props = Ref 0, dependencies = None, result = Undefined\<rparr>"

definition cold_cstate :: cstate where
  "cold_cstate = \<lparr>selectorCache = [(Some ''{}'', 0)], closures = [MemoSelector cold_memo]\<rparr>"

text \<open>
  The heap \<^verbatim>\<open>[{a: [1]}, [1], {a: [1]}, [1], {}]\<close>: two states of equal structure and
  different nested arrays, and an empty argument set.
\<close>

definition twin_heap :: "obj list" where
  "twin_heap = [Object [(''a'', Ref 1)], Array [Num 1], Object [(''a'', Ref 3)], Array [Num 1], Object []]"

definition twin_memo :: memo where
  "twin_memo = \<lparr>props = Ref 4, dependencies = Some [Ref 0], result = Ref 0\<rparr>"

definition twin_cstate :: cstate where
  "twin_cstate = \<lparr>selectorCache = [(Some ''{}'', 0)], closures = [MemoSelector twin_memo]\<rparr>"

text \<open>
  \<^verbatim>\<open>[{todoId: "a"}, {todoId: "a"}]\<close>: two argument sets with the same binding.
  Then the combinator after a call on the first, and after a read of the state-selector
  of that call on the state \<open>7\<close> with the combiner \<open>first_argument\<close>.
\<close>

definition todo_heap :: "obj list" where
  "todo_heap = [Object [(''todoId'', Str ''a'')], Object [(''todoId'', Str ''a'')]]"

definition todo_key :: string where
  "todo_key = CHR ''{'' # QuoteJSONString ''todoId'' @ CHR '':'' # QuoteJSONString ''a'' @ ''}''"

definition todo_cstate :: cstate where
  "todo_cstate = \<lparr>selectorCache = [(Some todo_key, 0)],
                   closures = [MemoSelector \<lparr>props = Ref 0, dependencies = None, result = Undefined\<rparr>]\<rparr>"

definition todo_cstate_read :: cstate where
  "todo_cstate_read = \<lparr>selectorCache = [(Some todo_key, 0)],
                        closures = [MemoSelector \<lparr>props = Ref 0, dependencies = Some [Num 7],
                                                  result = Num 7\<rparr>]\<rparr>"

text \<open>\<^verbatim>\<open>[{}, {todoId: undefined}]\<close>\<close>

definition undefined_heap :: "obj list" where
  "undefined_heap = [Object [], Object [(''todoId'', Undefined)]]"

text \<open>\<^verbatim>\<open>[{a: 1, b: 2}, {b: 2, a: 1}]\<close>: the same bindings, inserted in two orders.\<close>

definition order_heap :: "obj list" where
  "order_heap = [Object [(''a'', Num 1), (''b'', Num 2)], Object [(''b'', Num 2), (''a'', Num 1)]]"



section \<open>Properties\<close>


lemma objectIs_iff: "objectIs x y = (x = y)"
  by (auto simp: objectIs_def strict_eq_def)

text \<open>
  The index keys of an array are pairwise different, so \<^verbatim>\<open>shallowEqual\<close> on two
  arrays of the heap is the comparison of their elements: this is what justifies keeping
  the dependency arrays as lists.
\<close>

lemma string_of_nat_nonempty: "string_of_nat n \<noteq> []"
  by (subst string_of_nat.simps) simp

lemma digit_char_inj:
  assumes "i < 10" and "j < 10" and "char_of (48 + i) = (char_of (48 + j) :: char)"
  shows "i = (j::nat)"
proof -
  have "(48 + i) mod 256 = (48 + j) mod 256"
    using assms(3) by (simp add: char_of_eq_iff take_bit_eq_mod)
  then show ?thesis
    using assms(1,2) by simp
qed

lemma string_of_nat_inj:
  "string_of_nat n = string_of_nat m \<Longrightarrow> n = m"
proof (induction n arbitrary: m rule: string_of_nat.induct)
  case (1 n)
  show ?case
  proof (cases "n < 10")
    case small: True
    show ?thesis
    proof (cases "m < 10")
      case True
      then show ?thesis
        using "1.prems" small
        by (simp add: string_of_nat.simps [of n] string_of_nat.simps [of m] digit_char_inj)
    next
      case False
      then show ?thesis
        using "1.prems" small string_of_nat_nonempty [of "m div 10"]
        by (simp add: string_of_nat.simps [of n] string_of_nat.simps [of m])
    qed
  next
    case large: False
    show ?thesis
    proof (cases "m < 10")
      case True
      then show ?thesis
        using "1.prems" large string_of_nat_nonempty [of "n div 10"]
        by (simp add: string_of_nat.simps [of n] string_of_nat.simps [of m])
    next
      case False
      then have eq: "string_of_nat (n div 10) = string_of_nat (m div 10)"
        and last: "char_of (48 + n mod 10) = (char_of (48 + m mod 10) :: char)"
        using "1.prems" large
        by (simp_all add: string_of_nat.simps [of n] string_of_nat.simps [of m])
      have "n div 10 = m div 10"
        using large eq by (rule "1.IH")
      moreover have "n mod 10 = m mod 10"
        using last by (intro digit_char_inj) simp_all
      ultimately show ?thesis
        by (metis div_mult_mod_eq)
    qed
  qed
qed

lemma index_keys_distinct: "distinct (map string_of_nat [0..<n])"
  by (simp add: distinct_map inj_on_def) (blast dest: string_of_nat_inj)

lemma index_lookup:
  assumes "i < length ys"
  shows "map_of (zip (map string_of_nat [0..<length ys]) ys) (string_of_nat i) = Some (ys ! i)"
proof -
  have "map_of (zip (map string_of_nat [0..<length ys]) ys) (map string_of_nat [0..<length ys] ! i) =
      Some (ys ! i)"
    using assms by (intro map_of_zip_nth) (simp_all add: index_keys_distinct)
  then show ?thesis
    using assms by simp
qed

lemma shallowEqual_arrays_heap:
  assumes "a < length h" and "h ! a = Array xs" and "b < length h" and "h ! b = Array ys"
  shows "shallowEqual h (Ref a) (Ref b) = shallowEqual_arrays xs (Some ys)"
    and "shallowEqual h (Ref a) Undefined = shallowEqual_arrays xs None"
proof -
  show "shallowEqual h (Ref a) Undefined = shallowEqual_arrays xs None"
    using assms(1,2) by (simp add: shallowEqual_def as_object_def objectIs_def strict_eq_def)
  show "shallowEqual h (Ref a) (Ref b) = shallowEqual_arrays xs (Some ys)"
  proof (cases "a = b")
    case True
    then have "xs = ys"
      using assms(2,4) by simp
    then show ?thesis
      using True by (simp add: shallowEqual_def objectIs_iff list_all2_conv_all_nth)
  next
    case False
    show ?thesis
    proof (cases "length xs = length ys")
      case diff: False
      then show ?thesis
        using assms False
        by (simp add: shallowEqual_def as_object_def own_properties_def objectIs_iff)
    next
      case same: True
      have "list_all (\<lambda>(k, v). case map_of (zip (map string_of_nat [0..<length ys]) ys) k of
                None \<Rightarrow> False | Some v' \<Rightarrow> objectIs v v')
              (zip (map string_of_nat [0..<length xs]) xs)
          = (\<forall>i < length xs. objectIs (xs ! i) (ys ! i))"
        using same by (simp add: list_all_length index_lookup)
      then show ?thesis
        using assms False same
        by (simp add: shallowEqual_def as_object_def own_properties_def objectIs_iff
            list_all2_conv_all_nth)
    qed
  qed
qed

lemma memo_selector_hit:
  assumes "applyInputSelectors inputSelectors (props m) state w = (Inr newDependencies, w1)"
    and "shallowEqual_arrays newDependencies (dependencies m)"
  shows "memo_selector inputSelectors combiner options m state w = (Inr (result m), m, w1)"
  using assms by (simp add: memo_selector_def)

lemma memo_selector_miss:
  assumes "applyInputSelectors inputSelectors (props m) state w = (Inr newDependencies, w1)"
    and "\<not> shallowEqual_arrays newDependencies (dependencies m)"
  shows "memo_selector inputSelectors combiner options m state w =
     (case combiner newDependencies w1 of
        (Inl e, w2) \<Rightarrow> (Inl e, m\<lparr>dependencies := Some newDependencies\<rparr>, w2)
      | (Inr newResult, w2) \<Rightarrow>
          (if checkEqual (heap w2) (result m) newResult options then
             (Inr (result m), m\<lparr>dependencies := Some newDependencies\<rparr>, w2)
           else
             (Inr newResult, m\<lparr>dependencies := Some newDependencies, result := newResult\<rparr>, w2)))"
  using assms by (simp add: memo_selector_def)

lemma call_selector_memo:
  assumes "sel < length (closures cs)" and "closures cs ! sel = MemoSelector m"
  shows "call_selector inputSelectors combiner options sel state cs w =
     (case memo_selector inputSelectors combiner options m state w of
        (r, m1, w1) \<Rightarrow> (r, cs\<lparr>closures := (closures cs)[sel := MemoSelector m1]\<rparr>, w1))"
  using assms by (simp add: call_selector_def)

lemma closures_update_same:
  assumes "sel < length (closures cs)" and "closures cs ! sel = c"
  shows "cs\<lparr>closures := (closures cs)[sel := c]\<rparr> = cs"
  using assms by (simp add: list_update_same_conv [THEN iffD2])

text \<open>
  C1. A read of a state-selector of the cached path whose freshly evaluated dependencies
  are shallow-equal to the stored ones (which are then assigned: the selector has been
  read before) returns the stored result and leaves the closure as it was. The world is
  the one that the evaluation of the dependencies left, for every combiner and for every
  setting of the options: the combiner has not run and the options were not looked at.
  Every state-selector of a cached combinator is such a closure
  (lemma \<open>cached_selector_is_memo\<close>).
\<close>
theorem cached_read_unchanged_dependencies:
  assumes "sel < length (closures cs)"
    and "closures cs ! sel = MemoSelector m"
    and "applyInputSelectors inputSelectors (props m) state w = (Inr newDependencies, w1)"
    and "shallowEqual_arrays newDependencies (dependencies m)"
  shows "call_selector inputSelectors combiner options sel state cs w = (Inr (result m), cs, w1)
       \<and> dependencies m \<noteq> None"
proof
  have "memo_selector inputSelectors combiner options m state w = (Inr (result m), m, w1)"
    using assms(3,4) by (rule memo_selector_hit)
  then show "call_selector inputSelectors combiner options sel state cs w = (Inr (result m), cs, w1)"
    using assms(1,2) by (simp add: call_selector_memo closures_update_same)
  show "dependencies m \<noteq> None"
    using assms(4) by (cases "dependencies m") auto
qed


text \<open>
  C9. When the combiner throws on a cached read, the throw leaves the selector with the
  new dependencies stored and the old result kept. A later read whose dependencies are
  pairwise the same values as those returns that old result, in the world that the
  evaluation of the dependencies left: the combiner does not run again.
\<close>
theorem combiner_throw_keeps_dependencies:
  assumes "sel < length (closures cs)"
    and "closures cs ! sel = MemoSelector m"
    and "applyInputSelectors inputSelectors (props m) state w = (Inr newDependencies, w1)"
    and "\<not> shallowEqual_arrays newDependencies (dependencies m)"
    and "combiner newDependencies w1 = (Inl e, w2)"
    and "cs1 = cs\<lparr>closures := (closures cs)[sel := MemoSelector (m\<lparr>dependencies := Some newDependencies\<rparr>)]\<rparr>"
  shows "call_selector inputSelectors combiner options sel state cs w = (Inl e, cs1, w2)
       \<and> (\<forall>state' w3 w4 again.
             applyInputSelectors inputSelectors (props m) state' w3 = (Inr again, w4) \<longrightarrow>
             list_all2 objectIs again newDependencies \<longrightarrow>
             call_selector inputSelectors combiner options sel state' cs1 w3 = (Inr (result m), cs1, w4))"
proof (intro conjI allI impI)
  have "memo_selector inputSelectors combiner options m state w =
      (Inl e, m\<lparr>dependencies := Some newDependencies\<rparr>, w2)"
    using assms(3,4,5) by (simp add: memo_selector_miss)
  then show "call_selector inputSelectors combiner options sel state cs w = (Inl e, cs1, w2)"
    using assms(1,2,6) by (simp add: call_selector_memo)
next
  fix state' w3 w4 again
  assume ev: "applyInputSelectors inputSelectors (props m) state' w3 = (Inr again, w4)"
    and same: "list_all2 objectIs again newDependencies"
  let ?m1 = "m\<lparr>dependencies := Some newDependencies\<rparr>"
  have len: "sel < length (closures cs1)" and at: "closures cs1 ! sel = MemoSelector ?m1"
    using assms(1,6) by simp_all
  have "shallowEqual_arrays again (dependencies ?m1)"
    using same by (simp add: list_all2_lengthD)
  moreover have "applyInputSelectors inputSelectors (props ?m1) state' w3 = (Inr again, w4)"
    using ev by simp
  ultimately have "memo_selector inputSelectors combiner options ?m1 state' w3 =
      (Inr (result ?m1), ?m1, w4)"
    by (intro memo_selector_hit)
  then show "call_selector inputSelectors combiner options sel state' cs1 w3 = (Inr (result m), cs1, w4)"
    using len at by (simp add: call_selector_memo closures_update_same)
qed

text \<open>
  C4, as amended. On a cached read with changed dependencies, once the combiner has
  returned, the old result is kept when it is \<^verbatim>\<open>===\<close> to the new one, or the
  option \<^verbatim>\<open>shallowEquality\<close> is set and the two are shallow-equal, or the option
  \<^verbatim>\<open>deepEquality\<close> is set and the two are deep-equal; the deep comparison also
  applies when the shallow one was applied and failed. Otherwise the new result is
  stored and returned. The new dependencies are stored either way.
\<close>
theorem result_equality_check:
  assumes "sel < length (closures cs)"
    and "closures cs ! sel = MemoSelector m"
    and "applyInputSelectors inputSelectors (props m) state w = (Inr newDependencies, w1)"
    and "\<not> shallowEqual_arrays newDependencies (dependencies m)"
    and "combiner newDependencies w1 = (Inr newResult, w2)"
  shows "call_selector inputSelectors combiner options sel state cs w =
     (if strict_eq (result m) newResult
         \<or> (truthy (shallowEquality options) \<and> shallowEqual (heap w2) (result m) newResult)
         \<or> (truthy (deepEquality options) \<and> deepEqual (heap w2) (result m) newResult)
      then (Inr (result m),
            cs\<lparr>closures := (closures cs)[sel := MemoSelector (m\<lparr>dependencies := Some newDependencies\<rparr>)]\<rparr>,
            w2)
      else (Inr newResult,
            cs\<lparr>closures := (closures cs)[sel :=
                  MemoSelector (m\<lparr>dependencies := Some newDependencies, result := newResult\<rparr>)]\<rparr>,
            w2))"
proof -
  have "memo_selector inputSelectors combiner options m state w =
      (if checkEqual (heap w2) (result m) newResult options then
         (Inr (result m), m\<lparr>dependencies := Some newDependencies\<rparr>, w2)
       else (Inr newResult, m\<lparr>dependencies := Some newDependencies, result := newResult\<rparr>, w2))"
    using assms(3,4,5) by (simp add: memo_selector_miss)
  then show ?thesis
    using assms(1,2) by (simp add: call_selector_memo checkEqual_def)
qed


lemma bind_hit:
  assumes "is_cached options" and "JSON_stringify (heap w) p = Inr key"
    and "map_of (selectorCache cs) key = Some sel"
  shows "combineSelectors inputSelectors combiner options p cs w = (Inr sel, cs)"
  using assms by (simp add: combineSelectors_def)

lemma bind_throw:
  assumes "is_cached options" and "JSON_stringify (heap w) p = Inl e"
  shows "combineSelectors inputSelectors combiner options p cs w = (Inl e, cs)"
  using assms by (simp add: combineSelectors_def)

lemma bind_miss:
  assumes "is_cached options" and "JSON_stringify (heap w) p = Inr key"
    and "map_of (selectorCache cs) key = None"
  shows "combineSelectors inputSelectors combiner options p cs w =
     (Inr (length (closures cs)),
      cs\<lparr>closures := closures cs @ [MemoSelector \<lparr>props = p, dependencies = None, result = Undefined\<rparr>],
         selectorCache := AList.update key (length (closures cs)) (selectorCache cs)\<rparr>)"
  using assms by (simp add: combineSelectors_def)

lemma bind_yields_entry:
  assumes "is_cached options"
    and "combineSelectors inputSelectors combiner options p cs w = (Inr sel, cs1)"
  shows "\<exists>key. JSON_stringify (heap w) p = Inr key \<and> map_of (selectorCache cs1) key = Some sel"
proof (cases "JSON_stringify (heap w) p")
  case (Inl e)
  then show ?thesis using assms by (simp add: bind_throw)
next
  case (Inr key)
  show ?thesis
  proof (cases "map_of (selectorCache cs) key")
    case None
    then show ?thesis using assms Inr
      by (auto simp: bind_miss update_conv')
  next
    case (Some s)
    then show ?thesis using assms Inr by (auto simp: bind_hit)
  qed
qed

lemma bind_keeps_entries:
  assumes "combineSelectors inputSelectors combiner options p cs w = (r, cs1)"
    and "map_of (selectorCache cs) k = Some s"
  shows "map_of (selectorCache cs1) k = Some s"
  using assms
  by (auto simp: combineSelectors_def update_conv' split: if_splits sum.splits option.splits)

lemma read_keeps_cache:
  assumes "call_selector inputSelectors combiner options sel state cs w = (r, cs1, w1)"
  shows "selectorCache cs1 = selectorCache cs"
  using assms
  by (auto simp: call_selector_def split: if_splits closure.splits prod.splits)

lemma evolves_keeps_entries:
  assumes "evolves inputSelectors combiner options cs cs1"
    and "map_of (selectorCache cs) k = Some s"
  shows "map_of (selectorCache cs1) k = Some s"
  using assms
proof (induction rule: evolves.induct)
  case evolves_refl
  then show ?case by simp
next
  case (evolves_bind cs1 p w r cs2)
  then show ?case by (blast intro: bind_keeps_entries)
next
  case (evolves_read cs1 sel state w r cs2 w1)
  then show ?case by (simp add: read_keeps_cache)
qed

text \<open>
  C3. After a call of a cached combinator has returned a state-selector, every later
  call with props of the same encoding, after any calls and reads in between, returns
  that same state-selector and changes nothing: the entry of the cache is not replaced.
\<close>
theorem equal_encoding_same_selector:
  assumes "is_cached options"
    and "combineSelectors inputSelectors combiner options p1 cs w1 = (Inr sel, cs1)"
    and "evolves inputSelectors combiner options cs1 cs2"
    and "JSON_stringify (heap w2) p2 = JSON_stringify (heap w1) p1"
  shows "combineSelectors inputSelectors combiner options p2 cs2 w2 = (Inr sel, cs2)"
proof -
  obtain key where key: "JSON_stringify (heap w1) p1 = Inr key"
    and entry: "map_of (selectorCache cs1) key = Some sel"
    using bind_yields_entry [OF assms(1,2)] by blast
  have "map_of (selectorCache cs2) key = Some sel"
    using assms(3) entry by (rule evolves_keeps_entries)
  then show ?thesis
    using assms(1,4) key by (simp add: bind_hit)
qed


lemma naive_arguments_eq:
  "naive_arguments inputSelectors combiner evaluated p state w =
     (case applyInputSelectors inputSelectors p state w of
        (Inl e, w1) \<Rightarrow> (Inl e, w1)
      | (Inr deps, w1) \<Rightarrow> combiner (evaluated @ deps) w1)"
proof (induction inputSelectors arbitrary: evaluated w)
  case Nil
  show ?case by simp
next
  case (Cons selector rest)
  show ?case
    by (simp add: Cons.IH split: prod.splits sum.splits)
qed

lemma plain_selector_naive:
  "plain_selector inputSelectors combiner p state w = naive_composition inputSelectors combiner p state w"
  by (simp add: plain_selector_def naive_composition_def naive_arguments_eq
      split: prod.splits sum.splits)

lemma call_selector_plain:
  assumes "sel < length (closures cs)" and "closures cs ! sel = PlainSelector p"
  shows "call_selector inputSelectors combiner options sel state cs w =
     (fst (naive_composition inputSelectors combiner p state w), cs,
      snd (naive_composition inputSelectors combiner p state w))"
  using assms by (simp add: call_selector_def plain_selector_naive split: prod.splits)

text \<open>
  C7. Without caching options a call of the combinator makes a new state-selector,
  different from all earlier ones and from the one any later call makes, and does not
  touch the cache; every read of it is the naive composition of the input selectors and
  the combiner on the props of the call, runs the combiner whenever the input selectors
  have returned, and leaves the state of the combinator alone.
\<close>
theorem uncached_is_naive_composition:
  assumes "\<not> is_cached options"
  shows "\<exists>sel cs1.
      combineSelectors inputSelectors combiner options p cs w = (Inr sel, cs1)
    \<and> length (closures cs) \<le> sel
    \<and> selectorCache cs1 = selectorCache cs
    \<and> (\<forall>state w1.
          call_selector inputSelectors combiner options sel state cs1 w1 =
            (fst (naive_composition inputSelectors combiner p state w1), cs1,
             snd (naive_composition inputSelectors combiner p state w1)))
    \<and> (\<forall>state w1 deps w2.
          applyInputSelectors inputSelectors p state w1 = (Inr deps, w2) \<longrightarrow>
          call_selector inputSelectors combiner options sel state cs1 w1 =
            (fst (combiner deps w2), cs1, snd (combiner deps w2)))
    \<and> (\<forall>p2 w2. \<exists>sel2 cs2.
          combineSelectors inputSelectors combiner options p2 cs1 w2 = (Inr sel2, cs2)
        \<and> sel2 \<noteq> sel)"
proof -
  let ?sel = "length (closures cs)"
  let ?cs1 = "cs\<lparr>closures := closures cs @ [PlainSelector p]\<rparr>"
  have bind: "combineSelectors inputSelectors combiner options p cs w = (Inr ?sel, ?cs1)"
    using assms by (simp add: combineSelectors_def)
  have "?sel < length (closures ?cs1)" and "closures ?cs1 ! ?sel = PlainSelector p"
    by simp_all
  then have reads: "\<And>state w1.
      call_selector inputSelectors combiner options ?sel state ?cs1 w1 =
        (fst (naive_composition inputSelectors combiner p state w1), ?cs1,
         snd (naive_composition inputSelectors combiner p state w1))"
    by (rule call_selector_plain)
  have runs: "\<And>state w1 deps w2.
      applyInputSelectors inputSelectors p state w1 = (Inr deps, w2) \<Longrightarrow>
      call_selector inputSelectors combiner options ?sel state ?cs1 w1 =
        (fst (combiner deps w2), ?cs1, snd (combiner deps w2))"
    by (simp add: reads naive_composition_def naive_arguments_eq)
  have again: "\<And>p2 w2. \<exists>sel2 cs2.
      combineSelectors inputSelectors combiner options p2 ?cs1 w2 = (Inr sel2, cs2) \<and> sel2 \<noteq> ?sel"
    using assms by (simp add: combineSelectors_def)
  show ?thesis
    using bind reads runs again by (intro exI [of _ ?sel] exI [of _ ?cs1]) simp
qed

text \<open>
  C8, as amended. \<^verbatim>\<open>selectArgument(key)\<close> on an argument mapping without the key
  does not throw, whatever the state: it yields \<^verbatim>\<open>undefined\<close> for every key that
  \<^verbatim>\<open>Object.prototype\<close> does not define, and the inherited function for a method
  name of \<^verbatim>\<open>Object.prototype\<close>. On any props, its result does not depend on the
  state.
\<close>

theorem argument_absent_key:
  assumes "a < length (heap w)"
    and "heap w ! a = Object ps"
    and "key \<notin> fst ` set ps"
  shows "(key \<notin> set Object_prototype_methods \<and> key \<noteq> ''__proto__'' \<longrightarrow>
            selectArgument key (Ref a) state w = (Inr Undefined, w))
       \<and> (key \<in> set Object_prototype_methods \<longrightarrow>
            selectArgument key (Ref a) state w = (Inr (Builtin key), w))
       \<and> (\<forall>p state'. selectArgument key p state' w = selectArgument key p state w)"
proof -
  have "map_of ps key = None"
    using assms(3) by (simp add: map_of_eq_None_iff)
  then show ?thesis
    using assms(1,2) by (simp add: selectArgument_def get_property_def)
qed



lemma serialize_scalar:
  assumes "is_Serializable v"
  shows "SerializeJSONProperty h st v = SerializeJSONProperty [] [] v"
  using assms by (cases v) simp_all

lemma serialize_scalar_succeeds:
  assumes "is_Serializable v"
  shows "SerializeJSONProperty [] [] v = Inr (projr (SerializeJSONProperty [] [] v))"
  using assms by (cases v) simp_all

lemma serialize_scalars:
  assumes "\<forall>v \<in> snd ` set ps. is_Serializable v"
  shows "sequence_outcomes (map (\<lambda>p. SerializeJSONProperty h st (snd p)) ps) =
     Inr (map (\<lambda>p. projr (SerializeJSONProperty [] [] (snd p))) ps)"
  using assms
proof (induction ps)
  case Nil
  show ?case by simp
next
  case (Cons q qs)
  have "SerializeJSONProperty h st (snd q) = Inr (projr (SerializeJSONProperty [] [] (snd q)))"
    using Cons.prems serialize_scalar [of "snd q" h st] serialize_scalar_succeeds [of "snd q"]
    by simp
  then show ?case
    using Cons by simp
qed

lemma stringify_scalar_object:
  assumes "a < length h" and "h ! a = Object ps" and "\<forall>v \<in> snd ` set ps. is_Serializable v"
  shows "JSON_stringify h (Ref a) =
     Inr (Some (CHR ''{'' # join_comma (object_members
        (map (\<lambda>p. (fst p, projr (SerializeJSONProperty [] [] (snd p)))) ps)) @ ''}''))"
proof -
  have "zip (map fst ps) (map (\<lambda>p. projr (SerializeJSONProperty [] [] (snd p))) ps) =
      map (\<lambda>p. (fst p, projr (SerializeJSONProperty [] [] (snd p)))) ps"
    by (induction ps) simp_all
  then show ?thesis
    using assms by (simp add: JSON_stringify_def serialize_scalars)
qed

lemma object_members_Cons:
  "object_members ((k, s) # r) =
     (case s of None \<Rightarrow> object_members r
      | Some t \<Rightarrow> (QuoteJSONString k @ CHR '':'' # t) # object_members r)"
  by (cases s) simp_all

lemma object_members_skip_undefined:
  "object_members (map (\<lambda>p. (fst p, projr (SerializeJSONProperty [] [] (snd p))))
      (filter (\<lambda>p. snd p \<noteq> Undefined) ps)) =
   object_members (map (\<lambda>p. (fst p, projr (SerializeJSONProperty [] [] (snd p)))) ps)"
proof (induction ps)
  case Nil
  show ?case by simp
next
  case (Cons q qs)
  obtain k v where q: "q = (k, v)" by (cases q)
  show ?case
    using Cons by (cases "v = Undefined") (simp_all add: q object_members_Cons split: option.splits)
qed


lemma stringify_skips_undefined:
  assumes "a < length h1" and "h1 ! a = Object ps"
    and "b < length h2" and "h2 ! b = Object qs"
    and "\<forall>v \<in> snd ` set ps \<union> snd ` set qs. is_Serializable v"
    and "filter (\<lambda>p. snd p \<noteq> Undefined) ps = filter (\<lambda>p. snd p \<noteq> Undefined) qs"
  shows "JSON_stringify h1 (Ref a) = JSON_stringify h2 (Ref b)"
proof -
  have "object_members (map (\<lambda>p. (fst p, projr (SerializeJSONProperty [] [] (snd p)))) ps) =
      object_members (map (\<lambda>p. (fst p, projr (SerializeJSONProperty [] [] (snd p)))) qs)"
    using object_members_skip_undefined [of ps] object_members_skip_undefined [of qs] assms(6)
    by simp
  moreover have "\<forall>v \<in> snd ` set ps. is_Serializable v" and "\<forall>v \<in> snd ` set qs. is_Serializable v"
    using assms(5) by auto
  ultimately show ?thesis
    using assms(1-4) by (simp add: stringify_scalar_object)
qed

text \<open>
  C10. Two argument sets of scalar values that differ only in properties bound to
  \<^verbatim>\<open>undefined\<close> have the same encoding, and a cached combinator called on the
  first and then on the second returns the same state-selector, without a new entry.
\<close>
theorem undefined_arguments_share_selector:
  assumes "is_cached options"
    and "a < length (heap w1)" and "heap w1 ! a = Object ps"
    and "b < length (heap w2)" and "heap w2 ! b = Object qs"
    and "\<forall>v \<in> snd ` set ps \<union> snd ` set qs. is_Serializable v"
    and "filter (\<lambda>p. snd p \<noteq> Undefined) ps = filter (\<lambda>p. snd p \<noteq> Undefined) qs"
    and "combineSelectors inputSelectors combiner options (Ref a) cs w1 = (r, cs1)"
  shows "JSON_stringify (heap w1) (Ref a) = JSON_stringify (heap w2) (Ref b)
       \<and> (\<exists>sel. r = Inr sel
             \<and> combineSelectors inputSelectors combiner options (Ref b) cs1 w2 = (Inr sel, cs1))"
proof -
  have enc: "JSON_stringify (heap w1) (Ref a) = JSON_stringify (heap w2) (Ref b)"
    using assms(2-7) by (rule stringify_skips_undefined)
  have "\<forall>v \<in> snd ` set ps. is_Serializable v"
    using assms(6) by auto
  then obtain key where key: "JSON_stringify (heap w1) (Ref a) = Inr key"
    using assms(2,3) by (simp add: stringify_scalar_object)
  then obtain sel where sel: "r = Inr sel"
    using assms(1,8) by (cases "map_of (selectorCache cs) key") (auto simp: bind_miss bind_hit)
  then obtain key' where "JSON_stringify (heap w1) (Ref a) = Inr key'"
    and "map_of (selectorCache cs1) key' = Some sel"
    using bind_yields_entry assms(1,8) by blast
  then have "combineSelectors inputSelectors combiner options (Ref b) cs1 w2 = (Inr sel, cs1)"
    using assms(1) enc by (simp add: bind_hit)
  then show ?thesis
    using enc sel by simp
qed

lemma update_fresh:
  assumes "map_of al k = None"
  shows "AList.update k v al = al @ [(k, v)]"
  using assms by (induction al) (auto split: if_splits)

lemma cache_ok_new: "cache_ok new_cstate"
  by (simp add: cache_ok_def new_cstate_def)

lemma bind_cache_ok:
  assumes "cache_ok cs"
    and "combineSelectors inputSelectors combiner options p cs w = (r, cs1)"
  shows "cache_ok cs1"
proof -
  have grow: "\<And>c. list_all (\<lambda>entry. snd entry < length (closures cs @ [c])) (selectorCache cs)"
    using assms(1) by (auto simp: cache_ok_def list_all_iff)
  have fresh: "length (closures cs) \<notin> snd ` set (selectorCache cs)"
    using assms(1) by (auto simp: cache_ok_def list_all_iff)
  show ?thesis
    using assms grow fresh
    by (auto simp: combineSelectors_def cache_ok_def update_fresh
        split: if_splits sum.splits option.splits)
qed

lemma cache_injective:
  assumes "cache_ok cs"
    and "map_of (selectorCache cs) k1 = Some s" and "map_of (selectorCache cs) k2 = Some s"
  shows "k1 = k2"
proof -
  have "(k1, s) \<in> set (selectorCache cs)" and "(k2, s) \<in> set (selectorCache cs)"
    using assms(2,3) by (auto dest: map_of_SomeD)
  moreover have "inj_on snd (set (selectorCache cs))"
    using assms(1) by (simp add: cache_ok_def distinct_map)
  ultimately have "(k1, s) = (k2, s)"
    by (intro inj_onD [of snd]) simp_all
  then show ?thesis
    by simp
qed

text \<open>
  C6, as amended. Two successive calls of a cached combinator return the same
  state-selector exactly when the encodings of their props are equal; and they do so
  for two argument sets of scalar values with the same properties in the same order.
\<close>
theorem same_selector_iff_equal_encoding:
  assumes "is_cached options"
    and "cache_ok cs"
    and "combineSelectors inputSelectors combiner options p1 cs w1 = (Inr s1, cs1)"
    and "combineSelectors inputSelectors combiner options p2 cs1 w2 = (Inr s2, cs2)"
  shows "((s1 = s2) = (JSON_stringify (heap w1) p1 = JSON_stringify (heap w2) p2))
       \<and> (\<forall>a b ps. p1 = Ref a \<and> p2 = Ref b
             \<and> a < length (heap w1) \<and> heap w1 ! a = Object ps
             \<and> b < length (heap w2) \<and> heap w2 ! b = Object ps
             \<and> (\<forall>v \<in> snd ` set ps. is_Serializable v) \<longrightarrow> s1 = s2)"
proof -
  obtain key1 where key1: "JSON_stringify (heap w1) p1 = Inr key1"
    and entry1: "map_of (selectorCache cs1) key1 = Some s1"
    using bind_yields_entry [OF assms(1,3)] by blast
  obtain key2 where key2: "JSON_stringify (heap w2) p2 = Inr key2"
    and entry2: "map_of (selectorCache cs2) key2 = Some s2"
    using bind_yields_entry [OF assms(1,4)] by blast
  have iff: "(s1 = s2) = (key1 = key2)"
  proof
    assume "s1 = s2"
    have "cache_ok cs2"
      using assms(2,3,4) by (blast intro: bind_cache_ok)
    moreover have "map_of (selectorCache cs2) key1 = Some s1"
      using assms(4) entry1 by (rule bind_keeps_entries)
    ultimately show "key1 = key2"
      using entry2 \<open>s1 = s2\<close> by (blast intro: cache_injective)
  next
    assume "key1 = key2"
    then have "combineSelectors inputSelectors combiner options p2 cs1 w2 = (Inr s1, cs1)"
      using assms(1) key2 entry1 by (simp add: bind_hit)
    then show "s1 = s2"
      using assms(4) by simp
  qed
  have same_order: "s1 = s2"
    if "p1 = Ref a \<and> p2 = Ref b
      \<and> a < length (heap w1) \<and> heap w1 ! a = Object ps
      \<and> b < length (heap w2) \<and> heap w2 ! b = Object ps
      \<and> (\<forall>v \<in> snd ` set ps. is_Serializable v)" for a b ps
  proof -
    have "JSON_stringify (heap w1) (Ref a) = JSON_stringify (heap w2) (Ref b)"
      using that by (simp add: stringify_scalar_object)
    then show ?thesis
      using that iff key1 key2 by simp
  qed
  show ?thesis
    using iff key1 key2 same_order by auto
qed















text \<open>
  In every state that a cached combinator reaches from its creation the cache is
  well-formed, and the state-selector that a call returns is a closure of the cached path.
\<close>

lemma read_cache_ok:
  assumes "cache_ok cs"
    and "call_selector inputSelectors combiner options sel state cs w = (r, cs1, w1)"
  shows "cache_ok cs1"
  using assms
  by (auto simp: call_selector_def cache_ok_def split: if_splits closure.splits prod.splits)

lemma evolves_cache_ok:
  assumes "evolves inputSelectors combiner options cs cs1" and "cache_ok cs"
  shows "cache_ok cs1"
  using assms
proof (induction rule: evolves.induct)
  case evolves_refl
  then show ?case by simp
next
  case (evolves_bind cs1 p w r cs2)
  then show ?case by (blast intro: bind_cache_ok)
next
  case (evolves_read cs1 sel state w r cs2 w1)
  then show ?case by (blast intro: read_cache_ok)
qed

lemma bind_all_memo:
  assumes "is_cached options"
    and "list_all (\<lambda>c. \<exists>m. c = MemoSelector m) (closures cs)"
    and "combineSelectors inputSelectors combiner options p cs w = (r, cs1)"
  shows "list_all (\<lambda>c. \<exists>m. c = MemoSelector m) (closures cs1)"
  using assms
  by (auto simp: combineSelectors_def split: if_splits sum.splits option.splits)

lemma read_all_memo:
  assumes "list_all (\<lambda>c. \<exists>m. c = MemoSelector m) (closures cs)"
    and "call_selector inputSelectors combiner options sel state cs w = (r, cs1, w1)"
  shows "list_all (\<lambda>c. \<exists>m. c = MemoSelector m) (closures cs1)"
  using assms
  by (auto simp: call_selector_def list_all_iff split: if_splits closure.splits prod.splits
      dest!: set_update_subset_insert [THEN subsetD])

lemma evolves_all_memo:
  assumes "evolves inputSelectors combiner options cs cs1" and "is_cached options"
    and "list_all (\<lambda>c. \<exists>m. c = MemoSelector m) (closures cs)"
  shows "list_all (\<lambda>c. \<exists>m. c = MemoSelector m) (closures cs1)"
  using assms
proof (induction rule: evolves.induct)
  case evolves_refl
  then show ?case by simp
next
  case (evolves_bind cs1 p w r cs2)
  then show ?case by (blast intro: bind_all_memo)
next
  case (evolves_read cs1 sel state w r cs2 w1)
  then show ?case by (blast intro: read_all_memo)
qed

lemma cached_selector_is_memo:
  assumes "is_cached options"
    and "evolves inputSelectors combiner options new_cstate cs"
    and "combineSelectors inputSelectors combiner options p cs w = (Inr sel, cs1)"
  shows "sel < length (closures cs1) \<and> (\<exists>m. closures cs1 ! sel = MemoSelector m)"
proof -
  have reach: "evolves inputSelectors combiner options new_cstate cs1"
    using assms(2,3) by (rule evolves_bind)
  have ok: "cache_ok cs1"
    using reach cache_ok_new by (rule evolves_cache_ok)
  have "list_all (\<lambda>c. \<exists>m. c = MemoSelector m) (closures new_cstate)"
    by (simp add: new_cstate_def)
  with reach assms(1) have memo: "list_all (\<lambda>c. \<exists>m. c = MemoSelector m) (closures cs1)"
    by (rule evolves_all_memo)
  obtain key where "map_of (selectorCache cs1) key = Some sel"
    using bind_yields_entry [OF assms(1,3)] by blast
  then have "(key, sel) \<in> set (selectorCache cs1)"
    by (rule map_of_SomeD)
  then have "sel < length (closures cs1)"
    using ok by (auto simp: cache_ok_def list_all_iff)
  then show ?thesis
    using memo by (simp add: list_all_length)
qed

section \<open>The properties at concrete inputs\<close>


theorem cached_read_unchanged_dependencies_witness:
  "shallowEqual_arrays [Num 1] (dependencies warm_memo)
   \<and> call_selector [selectRoot] counting_combiner cached_only 0 (Num 1) warm_cstate warm_world =
       (Inr (Num 0), warm_cstate, warm_world)"
proof -
  have h1: "0 < length (closures warm_cstate)"
    by (simp add: warm_cstate_def)
  have h2: "closures warm_cstate ! 0 = MemoSelector warm_memo"
    by (simp add: warm_cstate_def)
  have h3: "applyInputSelectors [selectRoot] (props warm_memo) (Num 1) warm_world =
      (Inr [Num 1], warm_world)"
    by (simp add: selectRoot_def)
  have h4: "shallowEqual_arrays [Num 1] (dependencies warm_memo)"
    by (simp add: warm_memo_def objectIs_def strict_eq_def)
  show ?thesis
    using cached_read_unchanged_dependencies [OF h1 h2 h3 h4, of counting_combiner cached_only] h4
    by (simp add: warm_memo_def)
qed

theorem combiner_throw_keeps_dependencies_witness:
  "call_selector [selectRoot] throwing_combiner cached_only 0 (Num 1) cold_cstate \<lparr>heap = [Object []]\<rparr> =
     (Inl (Thrown (Str ''boom'')),
      cold_cstate\<lparr>closures := [MemoSelector (cold_memo\<lparr>dependencies := Some [Num 1]\<rparr>)]\<rparr>,
      \<lparr>heap = [Object []]\<rparr>)
   \<and> call_selector [selectRoot] throwing_combiner cached_only 0 (Num 1)
       (cold_cstate\<lparr>closures := [MemoSelector (cold_memo\<lparr>dependencies := Some [Num 1]\<rparr>)]\<rparr>)
       \<lparr>heap = [Object []]\<rparr> =
     (Inr Undefined,
      cold_cstate\<lparr>closures := [MemoSelector (cold_memo\<lparr>dependencies := Some [Num 1]\<rparr>)]\<rparr>,
      \<lparr>heap = [Object []]\<rparr>)"
proof -
  let ?w = "\<lparr>heap = [Object []]\<rparr>"
  let ?cs1 = "cold_cstate\<lparr>closures := [MemoSelector (cold_memo\<lparr>dependencies := Some [Num 1]\<rparr>)]\<rparr>"
  have h1: "0 < length (closures cold_cstate)"
    by (simp add: cold_cstate_def)
  have h2: "closures cold_cstate ! 0 = MemoSelector cold_memo"
    by (simp add: cold_cstate_def)
  have h3: "applyInputSelectors [selectRoot] (props cold_memo) (Num 1) ?w = (Inr [Num 1], ?w)"
    by (simp add: selectRoot_def)
  have h4: "\<not> shallowEqual_arrays [Num 1] (dependencies cold_memo)"
    by (simp add: cold_memo_def)
  have h5: "throwing_combiner [Num 1] ?w = (Inl (Thrown (Str ''boom'')), ?w)"
    by (simp add: throwing_combiner_def)
  have h6: "?cs1 = cold_cstate\<lparr>closures := (closures cold_cstate)[0 :=
      MemoSelector (cold_memo\<lparr>dependencies := Some [Num 1]\<rparr>)]\<rparr>"
    by (simp add: cold_cstate_def)
  have h7: "list_all2 objectIs [Num 1] [Num 1]"
    by (simp add: objectIs_def strict_eq_def)
  note both = combiner_throw_keeps_dependencies
    [where combiner = throwing_combiner and options = cached_only, OF h1 h2 h3 h4 h5 h6]
  from both have first: "call_selector [selectRoot] throwing_combiner cached_only 0 (Num 1) cold_cstate ?w =
      (Inl (Thrown (Str ''boom'')), ?cs1, ?w)"
    by (rule conjunct1)
  from both have "applyInputSelectors [selectRoot] (props cold_memo) (Num 1) ?w = (Inr [Num 1], ?w) \<longrightarrow>
      list_all2 objectIs [Num 1] [Num 1] \<longrightarrow>
      call_selector [selectRoot] throwing_combiner cached_only 0 (Num 1) ?cs1 ?w =
        (Inr (result cold_memo), ?cs1, ?w)"
    by blast
  then have second: "call_selector [selectRoot] throwing_combiner cached_only 0 (Num 1) ?cs1 ?w =
      (Inr Undefined, ?cs1, ?w)"
    using h3 h7 by (simp add: cold_memo_def)
  show ?thesis
    using first second by simp
qed

theorem result_equality_check_witness:
  "call_selector [selectRoot] first_argument shallow_and_deep 0 (Ref 2) twin_cstate \<lparr>heap = twin_heap\<rparr> =
     (Inr (Ref 0),
      twin_cstate\<lparr>closures := [MemoSelector (twin_memo\<lparr>dependencies := Some [Ref 2]\<rparr>)]\<rparr>,
      \<lparr>heap = twin_heap\<rparr>)"
proof -
  let ?w = "\<lparr>heap = twin_heap\<rparr>"
  have h1: "0 < length (closures twin_cstate)"
    by (simp add: twin_cstate_def)
  have h2: "closures twin_cstate ! 0 = MemoSelector twin_memo"
    by (simp add: twin_cstate_def)
  have h3: "applyInputSelectors [selectRoot] (props twin_memo) (Ref 2) ?w = (Inr [Ref 2], ?w)"
    by (simp add: selectRoot_def)
  have h4: "\<not> shallowEqual_arrays [Ref 2] (dependencies twin_memo)"
    by (simp add: twin_memo_def objectIs_def strict_eq_def)
  have h5: "first_argument [Ref 2] ?w = (Inr (Ref 2), ?w)"
    by (simp add: first_argument_def)
  have deep: "deepEqual twin_heap (Ref 0) (Ref 2)"
    by (simp add: deepEqual_def JSON_stringify_def twin_heap_def)
  show ?thesis
    using result_equality_check
      [where combiner = first_argument and options = shallow_and_deep, OF h1 h2 h3 h4 h5] deep
    by (simp add: twin_memo_def twin_cstate_def shallow_and_deep_def truthy_def)
qed

theorem result_equality_check_counterexample:
  "truthy (shallowEquality shallow_and_deep)
   \<and> truthy (deepEquality shallow_and_deep)
   \<and> \<not> shallowEqual_arrays [Ref 2] (dependencies twin_memo)
   \<and> \<not> strict_eq (Ref 0) (Ref 2)
   \<and> \<not> shallowEqual twin_heap (Ref 0) (Ref 2)
   \<and> result twin_memo = Ref 0
   \<and> first_argument [Ref 2] \<lparr>heap = twin_heap\<rparr> = (Inr (Ref 2), \<lparr>heap = twin_heap\<rparr>)
   \<and> fst (call_selector [selectRoot] first_argument shallow_and_deep 0 (Ref 2) twin_cstate
        \<lparr>heap = twin_heap\<rparr>) = Inr (Ref 0)"
  by code_simp



theorem equal_encoding_same_selector_witness:
  "is_cached cached_only
   \<and> JSON_stringify todo_heap (Ref 1) = JSON_stringify todo_heap (Ref 0)
   \<and> combineSelectors [selectRoot] first_argument cached_only (Ref 1) todo_cstate_read
        \<lparr>heap = todo_heap\<rparr> = (Inr 0, todo_cstate_read)"
proof -
  let ?w = "\<lparr>heap = todo_heap\<rparr>"
  have h1: "is_cached cached_only"
    by (simp add: is_cached_def cached_only_def truthy_def)
  have h2: "combineSelectors [selectRoot] first_argument cached_only (Ref 0) new_cstate ?w =
      (Inr 0, todo_cstate)"
    by code_simp
  have "call_selector [selectRoot] first_argument cached_only 0 (Num 7) todo_cstate ?w =
      (Inr (Num 7), todo_cstate_read, ?w)"
    by code_simp
  then have h3: "evolves [selectRoot] (first_argument :: world Combiner) cached_only
      todo_cstate todo_cstate_read"
    by (rule evolves_read [OF evolves_refl])
  have h4: "JSON_stringify (heap ?w) (Ref 1) = JSON_stringify (heap ?w) (Ref 0)"
    by code_simp
  show ?thesis
    using equal_encoding_same_selector [OF h1 h2 h3 h4] h1 h4 by simp
qed

theorem uncached_is_naive_composition_witness:
  "\<not> is_cached no_options
   \<and> combineSelectors [selectRoot] counting_combiner no_options (Ref 0) new_cstate warm_world =
       (Inr 0, \<lparr>selectorCache = [], closures = [PlainSelector (Ref 0)]\<rparr>)
   \<and> call_selector [selectRoot] counting_combiner no_options 0 (Num 1)
        \<lparr>selectorCache = [], closures = [PlainSelector (Ref 0)]\<rparr> warm_world =
       (Inr (Num 1), \<lparr>selectorCache = [], closures = [PlainSelector (Ref 0)]\<rparr>,
        warm_world\<lparr>calls := 2\<rparr>)
   \<and> call_selector [selectRoot] counting_combiner no_options 0 (Num 1)
        \<lparr>selectorCache = [], closures = [PlainSelector (Ref 0)]\<rparr> (warm_world\<lparr>calls := 2\<rparr>) =
       (Inr (Num 2), \<lparr>selectorCache = [], closures = [PlainSelector (Ref 0)]\<rparr>,
        warm_world\<lparr>calls := 3\<rparr>)"
proof -
  let ?cs1 = "\<lparr>selectorCache = [], closures = [PlainSelector (Ref 0)]\<rparr>"
  have h1: "\<not> is_cached no_options"
    by (simp add: is_cached_def no_options_def truthy_def)
  have bind: "combineSelectors [selectRoot] counting_combiner no_options (Ref 0) new_cstate warm_world =
      (Inr 0, ?cs1)"
    by (simp add: combineSelectors_def h1 new_cstate_def)
  obtain sel cs1 where
    "combineSelectors [selectRoot] counting_combiner no_options (Ref 0) new_cstate warm_world = (Inr sel, cs1)"
    and reads: "\<forall>state w1. call_selector [selectRoot] counting_combiner no_options sel state cs1 w1 =
      (fst (naive_composition [selectRoot] counting_combiner (Ref 0) state w1), cs1,
       snd (naive_composition [selectRoot] counting_combiner (Ref 0) state w1))"
    using uncached_is_naive_composition [OF h1, of "[selectRoot]" counting_combiner "Ref 0" new_cstate warm_world]
    by blast
  then have "sel = 0" and "cs1 = ?cs1"
    using bind by simp_all
  then have "call_selector [selectRoot] counting_combiner no_options 0 (Num 1) ?cs1 w1 =
      (Inr (Num (int (calls w1))), ?cs1, w1\<lparr>calls := calls w1 + 1\<rparr>)" for w1
    using reads by (simp add: naive_composition_def selectRoot_def counting_combiner_def)
  from this [of warm_world] this [of "warm_world\<lparr>calls := 2\<rparr>"] show ?thesis
    using h1 bind by (simp add: warm_world_def)
qed

theorem argument_absent_key_witness:
  "undefined_heap ! 0 = Object []
   \<and> selectArgument ''todoId'' (Ref 0) (Num 3) \<lparr>heap = undefined_heap\<rparr> =
       (Inr Undefined, \<lparr>heap = undefined_heap\<rparr>)"
proof -
  let ?w = "\<lparr>heap = undefined_heap\<rparr>"
  have h1: "0 < length (heap ?w)"
    by (simp add: undefined_heap_def)
  have h2: "heap ?w ! 0 = Object []"
    by (simp add: undefined_heap_def)
  have h3: "''todoId'' \<notin> fst ` set ([] :: (string \<times> jsval) list)"
    by simp
  have h4: "''todoId'' \<notin> set Object_prototype_methods \<and> ''todoId'' \<noteq> ''__proto__''"
    by (simp add: Object_prototype_methods_def)
  show ?thesis
    using argument_absent_key [OF h1 h2 h3, of "Num 3"] h2 h4 by simp
qed

theorem argument_absent_key_counterexample:
  "undefined_heap ! 0 = Object []
   \<and> map_of ([] :: (string \<times> jsval) list) ''toString'' = None
   \<and> selectArgument ''toString'' (Ref 0) (Num 3) \<lparr>heap = undefined_heap\<rparr> =
       (Inr (Builtin ''toString''), \<lparr>heap = undefined_heap\<rparr>)
   \<and> Builtin ''toString'' \<noteq> Undefined"
  by code_simp





theorem undefined_arguments_share_selector_witness:
  "JSON_stringify undefined_heap (Ref 0) = JSON_stringify undefined_heap (Ref 1)
   \<and> combineSelectors [selectRoot] first_argument cached_only (Ref 0) new_cstate
        \<lparr>heap = undefined_heap\<rparr> = (Inr 0, cold_cstate)
   \<and> combineSelectors [selectRoot] first_argument cached_only (Ref 1) cold_cstate
        \<lparr>heap = undefined_heap\<rparr> = (Inr 0, cold_cstate)"
proof -
  let ?w = "\<lparr>heap = undefined_heap\<rparr>"
  have h1: "is_cached cached_only"
    by (simp add: is_cached_def cached_only_def truthy_def)
  have h2: "0 < length (heap ?w)" and h3: "heap ?w ! 0 = Object []"
    and h4: "1 < length (heap ?w)" and h5: "heap ?w ! 1 = Object [(''todoId'', Undefined)]"
    by (simp_all add: undefined_heap_def)
  have h6: "\<forall>v \<in> snd ` set [] \<union> snd ` set [(''todoId'', Undefined)]. is_Serializable v"
    by simp
  have h7: "filter (\<lambda>p. snd p \<noteq> Undefined) [] =
      filter (\<lambda>p. snd p \<noteq> Undefined) [(''todoId'', Undefined)]"
    by simp
  have h8: "combineSelectors [selectRoot] first_argument cached_only (Ref 0) new_cstate ?w =
      (Inr 0, cold_cstate)"
    by code_simp
  show ?thesis
    using undefined_arguments_share_selector [OF h1 h2 h3 h4 h5 h6 h7 h8] h8 by simp
qed

theorem same_selector_iff_equal_encoding_witness:
  "cache_ok new_cstate
   \<and> combineSelectors [selectRoot] first_argument cached_only (Ref 0) new_cstate
        \<lparr>heap = todo_heap\<rparr> = (Inr 0, todo_cstate)
   \<and> combineSelectors [selectRoot] first_argument cached_only (Ref 1) todo_cstate
        \<lparr>heap = todo_heap\<rparr> = (Inr 0, todo_cstate)
   \<and> JSON_stringify todo_heap (Ref 0) = JSON_stringify todo_heap (Ref 1)"
proof -
  let ?w = "\<lparr>heap = todo_heap\<rparr>"
  have h1: "is_cached cached_only"
    by (simp add: is_cached_def cached_only_def truthy_def)
  have h2: "cache_ok new_cstate"
    by (rule cache_ok_new)
  have h3: "combineSelectors [selectRoot] first_argument cached_only (Ref 0) new_cstate ?w =
      (Inr 0, todo_cstate)"
    by code_simp
  have h4: "combineSelectors [selectRoot] first_argument cached_only (Ref 1) todo_cstate ?w =
      (Inr 0, todo_cstate)"
    by code_simp
  have "((0::nat) = 0) = (JSON_stringify (heap ?w) (Ref 0) = JSON_stringify (heap ?w) (Ref 1))"
    using same_selector_iff_equal_encoding [OF h1 h2 h3 h4] by (rule conjunct1)
  then show ?thesis
    using h2 h3 h4 by simp
qed

theorem same_selector_iff_equal_encoding_counterexample:
  "JSON_stringify order_heap (Ref 0) \<noteq> JSON_stringify order_heap (Ref 1)
   \<and> fst (combineSelectors [selectRoot] first_argument cached_only (Ref 0) new_cstate
        \<lparr>heap = order_heap\<rparr>) = Inr 0
   \<and> fst (combineSelectors [selectRoot] first_argument cached_only (Ref 1)
        (snd (combineSelectors [selectRoot] first_argument cached_only (Ref 0) new_cstate
           \<lparr>heap = order_heap\<rparr>))
        \<lparr>heap = order_heap\<rparr>) = Inr 1"
  by code_simp

end
